theory Spec2Isabelle
  imports Complex_Main "HOL-Library.Multiset" "HOL-Library.Sublist"
begin

section \<open>Strings\<close>

text \<open>
  JavaScript's \<^verbatim>\<open>String.prototype.toLowerCase\<close>, restricted to the ASCII letters: a
  \<open>char\<close> is a byte here. Characters outside \<open>A\<close>..\<open>Z\<close> are left as they are.
\<close>

definition toLowerCase_char :: "char \<Rightarrow> char" where
  "toLowerCase_char c =
     (case map_of (zip ''ABCDEFGHIJKLMNOPQRSTUVWXYZ'' ''abcdefghijklmnopqrstuvwxyz'') c of
        Some d \<Rightarrow> d
      | None \<Rightarrow> c)"

definition toLowerCase :: "string \<Rightarrow> string" where
  "toLowerCase s = map toLowerCase_char s"

section \<open>The tag profile of a user (models/User.js)\<close>

text \<open>
  One element of \<^verbatim>\<open>likedTags\<close>. A JavaScript number is a real here (NaN and the
  infinities are outside the model); \<^verbatim>\<open>count\<close> is called \<open>tagCount\<close> because
  \<open>count\<close> is the multiplicity function of multisets. A date is its \<^verbatim>\<open>getTime()\<close>, in
  milliseconds.
\<close>

record likedTag =
  tag :: string
  tagCount :: real
  lastLikedAt :: int

text \<open>
  \<^verbatim>\<open>Array.prototype.findIndex\<close>: the position of the first element that satisfies
  the predicate. \<^verbatim>\<open>likedTags.find(...)\<close> returns that element itself, by reference, and
  the method then writes to it in place; the model writes at the position found.
\<close>

fun findIndex :: "('a \<Rightarrow> bool) \<Rightarrow> 'a list \<Rightarrow> nat option" where
  "findIndex P [] = None"
| "findIndex P (x # xs) =
     (if P x then Some 0 else (case findIndex P xs of None \<Rightarrow> None | Some i \<Rightarrow> Some (Suc i)))"

text \<open>
  \<^verbatim>\<open>likedTags.sort((a, b) => b.count - a.count)\<close>: descending by count. The sort of
  the language is stable, so entries of equal count keep the order they had in the array;
  \<open>sort_key\<close> is the stable insertion sort of the library, on the negated count.
\<close>

definition sortByCountDesc :: "likedTag list \<Rightarrow> likedTag list" where
  "sortByCountDesc lts = sort_key (\<lambda>lt. - tagCount lt) lts"

text \<open>
  The first half of \<^verbatim>\<open>addLikedTag\<close>: increment the entry found, or push a new one.
  \<open>now\<close> is the value of \<^verbatim>\<open>new Date()\<close>.
\<close>

definition bumpOrPush :: "string \<Rightarrow> int \<Rightarrow> likedTag list \<Rightarrow> likedTag list" where
  "bumpOrPush t now likedTags =
     (case findIndex (\<lambda>lt. tag lt = toLowerCase t) likedTags of
        Some i \<Rightarrow>
          likedTags[i := (likedTags ! i)\<lparr>tagCount := tagCount (likedTags ! i) + 1,
                                        lastLikedAt := now\<rparr>]
      | None \<Rightarrow>
          likedTags @ [\<lparr>tag = toLowerCase t, tagCount = 1, lastLikedAt = now\<rparr>])"

text \<open>
  \<^verbatim>\<open>addLikedTag\<close>: the update above, then the cap of 100 entries
  (\<^verbatim>\<open>slice(0, 100)\<close> of the sorted array). The document is saved as it is returned.
\<close>

definition addLikedTag :: "string \<Rightarrow> int \<Rightarrow> likedTag list \<Rightarrow> likedTag list" where
  "addLikedTag t now likedTags =
     (let updated = bumpOrPush t now likedTags
      in if length updated > 100 then take 100 (sortByCountDesc updated) else updated)"

text \<open>
  The weight the profile stores for a tag, as \<^verbatim>\<open>addLikedTag\<close> itself looks it up: the
  count of the first entry whose tag is the lower-cased tag, and 0 when there is none.
\<close>

definition storedWeight :: "string \<Rightarrow> likedTag list \<Rightarrow> real" where
  "storedWeight t likedTags =
     (case find (\<lambda>lt. tag lt = toLowerCase t) likedTags of
        Some lt \<Rightarrow> tagCount lt
      | None \<Rightarrow> 0)"

text \<open>A run of calls, each with its tag and the time of the call, oldest call first.\<close>

definition addLikedTags :: "(string \<times> int) list \<Rightarrow> likedTag list \<Rightarrow> likedTag list" where
  "addLikedTags calls likedTags = fold (\<lambda>(t, now). addLikedTag t now) calls likedTags"

text \<open>
  A profile at the cap, used as a concrete input below: 100 entries of count 1, with the
  tags \<open>a\<close>, \<open>aa\<close>, \<open>aaa\<close>, ... and the times 0, 1, 2, ... of their last like.
\<close>

definition fullProfile :: "likedTag list" where
  "fullProfile =
     map (\<lambda>i. \<lparr>tag = replicate (Suc i) CHR ''a'', tagCount = 1, lastLikedAt = int i\<rparr>) [0..<100]"

section \<open>Numbers of the language\<close>

text \<open>
  A number as the scoring code computes with it: \<^verbatim>\<open>NaN\<close>, the two infinities, or a
  finite value. A finite value is a real here: rounding and underflow are not modelled,
  and there is one zero, which divides as \<open>+0\<close>. What is modelled is the range: a result
  beyond \<^verbatim>\<open>Number.MAX_VALUE\<close> is an infinity, and the special values follow IEEE 754.
\<close>

datatype jsnum = NaN | Infinity | NegInfinity | Num real

definition MAX_VALUE :: real where
  "MAX_VALUE = (2 - 1 / 2 ^ 52) * 2 ^ 1023"

definition ofReal :: "real \<Rightarrow> jsnum" where
  "ofReal x =
     (if MAX_VALUE < x then Infinity else if x < - MAX_VALUE then NegInfinity else Num x)"

fun jsSign :: "jsnum \<Rightarrow> int" where
  "jsSign NaN = 0"
| "jsSign Infinity = 1"
| "jsSign NegInfinity = - 1"
| "jsSign (Num x) = (if 0 < x then 1 else if x < 0 then - 1 else 0)"

fun jsNeg :: "jsnum \<Rightarrow> jsnum" where
  "jsNeg NaN = NaN"
| "jsNeg Infinity = NegInfinity"
| "jsNeg NegInfinity = Infinity"
| "jsNeg (Num x) = Num (- x)"

fun jsAdd :: "jsnum \<Rightarrow> jsnum \<Rightarrow> jsnum" where
  "jsAdd NaN b = NaN"
| "jsAdd a NaN = NaN"
| "jsAdd (Num x) (Num y) = ofReal (x + y)"
| "jsAdd Infinity NegInfinity = NaN"
| "jsAdd NegInfinity Infinity = NaN"
| "jsAdd Infinity b = Infinity"
| "jsAdd a Infinity = Infinity"
| "jsAdd NegInfinity b = NegInfinity"
| "jsAdd a NegInfinity = NegInfinity"

definition jsSub :: "jsnum \<Rightarrow> jsnum \<Rightarrow> jsnum" where
  "jsSub a b = jsAdd a (jsNeg b)"

fun jsMul :: "jsnum \<Rightarrow> jsnum \<Rightarrow> jsnum" where
  "jsMul NaN b = NaN"
| "jsMul a NaN = NaN"
| "jsMul (Num x) (Num y) = ofReal (x * y)"
| "jsMul a b =
     (if jsSign a * jsSign b = 0 then NaN
      else if 0 < jsSign a * jsSign b then Infinity else NegInfinity)"

fun jsDiv :: "jsnum \<Rightarrow> jsnum \<Rightarrow> jsnum" where
  "jsDiv NaN b = NaN"
| "jsDiv a NaN = NaN"
| "jsDiv (Num x) (Num y) =
     (if y = 0 then (if x = 0 then NaN else if 0 < x then Infinity else NegInfinity)
      else ofReal (x / y))"
| "jsDiv (Num x) b = Num 0"
| "jsDiv a (Num y) =
     (if 0 < jsSign a * (if y < 0 then - 1 else 1) then Infinity else NegInfinity)"
| "jsDiv a b = NaN"

text \<open>\<^verbatim>\<open>a < b\<close>: false when either side is \<^verbatim>\<open>NaN\<close>.\<close>

fun jsLess :: "jsnum \<Rightarrow> jsnum \<Rightarrow> bool" where
  "jsLess NaN b = False"
| "jsLess a NaN = False"
| "jsLess (Num x) (Num y) = (x < y)"
| "jsLess NegInfinity NegInfinity = False"
| "jsLess NegInfinity b = True"
| "jsLess Infinity b = False"
| "jsLess (Num x) Infinity = True"
| "jsLess (Num x) NegInfinity = False"

definition jsGt :: "jsnum \<Rightarrow> jsnum \<Rightarrow> bool" where
  "jsGt a b = jsLess b a"

text \<open>\<^verbatim>\<open>Math.max\<close> and \<^verbatim>\<open>Math.min\<close> of two arguments: \<^verbatim>\<open>NaN\<close> when either is.\<close>

definition jsMax :: "jsnum \<Rightarrow> jsnum \<Rightarrow> jsnum" where
  "jsMax a b = (if a = NaN \<or> b = NaN then NaN else if jsLess a b then b else a)"

definition jsMin :: "jsnum \<Rightarrow> jsnum \<Rightarrow> jsnum" where
  "jsMin a b = (if a = NaN \<or> b = NaN then NaN else if jsLess b a then b else a)"

text \<open>\<^verbatim>\<open>Math.log\<close>, \<^verbatim>\<open>Math.exp\<close> and \<^verbatim>\<open>Math.pow(0.5, y)\<close>.\<close>

fun jsLog :: "jsnum \<Rightarrow> jsnum" where
  "jsLog NaN = NaN"
| "jsLog Infinity = Infinity"
| "jsLog NegInfinity = NaN"
| "jsLog (Num x) = (if x < 0 then NaN else if x = 0 then NegInfinity else Num (ln x))"

fun jsExp :: "jsnum \<Rightarrow> jsnum" where
  "jsExp NaN = NaN"
| "jsExp Infinity = Infinity"
| "jsExp NegInfinity = Num 0"
| "jsExp (Num x) = ofReal (exp x)"

fun jsPowHalf :: "jsnum \<Rightarrow> jsnum" where
  "jsPowHalf NaN = NaN"
| "jsPowHalf Infinity = Num 0"
| "jsPowHalf NegInfinity = Infinity"
| "jsPowHalf (Num y) = ofReal ((1 / 2) powr y)"

section \<open>Posts and scores (services/rankingService.js)\<close>

text \<open>
  The only exception the scoring code can raise on the inputs of this model: a method call
  on a value that has no such method.
\<close>

datatype js_error = TypeError

text \<open>
  The \<^verbatim>\<open>createdAt\<close> field of a post: missing (\<^verbatim>\<open>undefined\<close> or \<^verbatim>\<open>null\<close>, both falsy), a
  \<^verbatim>\<open>Date\<close> with its \<^verbatim>\<open>getTime()\<close> in milliseconds, an Invalid Date (a \<^verbatim>\<open>Date\<close> object whose
  \<^verbatim>\<open>getTime()\<close> is \<^verbatim>\<open>NaN\<close>, as \<^verbatim>\<open>new Date('garbage')\<close> is), or a truthy value that is not a
  \<^verbatim>\<open>Date\<close> at all (a date string, say), on which \<^verbatim>\<open>getTime()\<close> raises.
\<close>

datatype timestamp = NoDate | Date int | InvalidDate | NotADate

text \<open>
  \<^verbatim>\<open>createdAt.getTime()\<close>. Both callers test \<^verbatim>\<open>createdAt\<close> first, so the call on a missing
  value, which would raise, is never made.
\<close>

fun getTime :: "timestamp \<Rightarrow> js_error + jsnum" where
  "getTime (Date t) = Inr (Num (real_of_int t))"
| "getTime InvalidDate = Inr NaN"
| "getTime NotADate = Inl TypeError"
| "getTime NoDate = Inl TypeError"

text \<open>
  A post, with the fields the ranking reads; \<open>post_id\<close> is \<^verbatim>\<open>_id\<close>. An engagement field is
  \<open>None\<close> when it is \<^verbatim>\<open>undefined\<close>, and otherwise the number the arithmetic reads from it
  (\<^verbatim>\<open>ToNumber\<close> of the value): the number itself, or \<^verbatim>\<open>NaN\<close> for a value that is not numeric,
  such as the string \<^verbatim>\<open>'abc'\<close>.
\<close>

record post =
  post_id :: string
  tags :: "string list option"
  createdAt :: timestamp
  likesCount :: "jsnum option"
  commentsCount :: "jsnum option"
  sharesCount :: "jsnum option"
  viewsCount :: "jsnum option"

text \<open>The object \<^verbatim>\<open>{...post, rankingScore, _personalizedFor}\<close> of the batch.\<close>

record scoredPost = post +
  rankingScore :: jsnum
  personalizedFor :: string

text \<open>The argument of \<^verbatim>\<open>calculatePopularityScore\<close>.\<close>

record engagement =
  e_likesCount :: "jsnum option"
  e_commentsCount :: "jsnum option"
  e_sharesCount :: "jsnum option"
  e_viewsCount :: "jsnum option"

text \<open>
  The three weights of utils/constants.js. They are read from the environment, so they
  are a parameter of the score; \<open>defaultWeights\<close> are the values used when the environment
  sets none.
\<close>

record rankingWeights =
  PERSONALIZATION_WEIGHT :: real
  RECENCY_WEIGHT :: real
  POPULARITY_WEIGHT :: real

definition defaultWeights :: rankingWeights where
  "defaultWeights =
     \<lparr>PERSONALIZATION_WEIGHT = 4 / 10, RECENCY_WEIGHT = 3 / 10, POPULARITY_WEIGHT = 3 / 10\<rparr>"

definition DAY_IN_MS :: int where
  "DAY_IN_MS = 24 * 60 * 60 * 1000"

text \<open>
  The first \<^verbatim>\<open>forEach\<close> of \<^verbatim>\<open>calculatePersonalizationScore\<close>: the \<^verbatim>\<open>Map\<close> of preferences
  and the total weight, accumulated entry by entry (a later entry of the same tag
  overwrites the earlier one in the map, and both are added to the total).
\<close>

definition buildPreferences :: "likedTag list \<Rightarrow> (string \<rightharpoonup> real) \<times> real" where
  "buildPreferences userLikedTags =
     fold (\<lambda>lt (userTagPreferences, totalTagWeight).
             (userTagPreferences(toLowerCase (tag lt) \<mapsto> tagCount lt),
              totalTagWeight + tagCount lt))
          userLikedTags (Map.empty, 0)"

text \<open>The second \<^verbatim>\<open>forEach\<close>: the match score and the number of matched tags.\<close>

definition matchTags :: "(string \<rightharpoonup> real) \<Rightarrow> real \<Rightarrow> string list \<Rightarrow> real \<times> nat" where
  "matchTags userTagPreferences totalTagWeight postTags =
     fold (\<lambda>t (matchScore, matchedTags).
             (case userTagPreferences (toLowerCase t) of
                Some tagWeight \<Rightarrow> (matchScore + tagWeight / totalTagWeight, Suc matchedTags)
              | None \<Rightarrow> (matchScore, matchedTags)))
          postTags (0, 0)"

text \<open>
  \<^verbatim>\<open>calculatePersonalizationScore(postTags, userLikedTags)\<close>. \<open>None\<close> is a missing
  \<^verbatim>\<open>postTags\<close>; the profile is an array (the default \<^verbatim>\<open>[]\<close> when the caller passes none),
  and its counts are finite numbers, taken as reals.
\<close>

definition calculatePersonalizationScore :: "string list option \<Rightarrow> likedTag list \<Rightarrow> real" where
  "calculatePersonalizationScore postTags userLikedTags =
     (case postTags of
        None \<Rightarrow> 0
      | Some pts \<Rightarrow>
          if length pts = 0 \<or> length userLikedTags = 0 then 0
          else
            (case buildPreferences userLikedTags of
               (userTagPreferences, totalTagWeight) \<Rightarrow>
                 if totalTagWeight = 0 then 0
                 else
                   (case matchTags userTagPreferences totalTagWeight pts of
                      (matchScore, matchedTags) \<Rightarrow>
                        let normalizedScore =
                              (if length pts > 0 then matchScore / sqrt (real (length pts)) else 0);
                            matchPercentage = real matchedTags / real (length pts)
                        in min (normalizedScore * (1 + matchPercentage)) 1)))"

text \<open>
  \<^verbatim>\<open>calculateRecencyScore(createdAt)\<close>; \<open>now\<close> is the clock, \<^verbatim>\<open>new Date().getTime()\<close>.
\<close>

definition calculateRecencyScore :: "int \<Rightarrow> timestamp \<Rightarrow> js_error + jsnum" where
  "calculateRecencyScore now created =
     (if created = NoDate then Inr (Num 0)
      else
        (case getTime created of
           Inl e \<Rightarrow> Inl e
         | Inr t \<Rightarrow>
             let ageInMs = jsSub (Num (real_of_int now)) t;
                 ageInDays = jsDiv ageInMs (Num (real_of_int DAY_IN_MS));
                 halfLife = Num 2;
                 decayFactor = jsPowHalf (jsDiv ageInDays halfLife)
             in Inr (jsMax (Num 0) (jsMin (Num 1) decayFactor))))"

text \<open>
  The recency score of a date as a function of its age in milliseconds, as
  \<^verbatim>\<open>calculateRecencyScore\<close> computes it, and the real number that the properties below show
  it to be.
\<close>

definition decayOfAge :: "real \<Rightarrow> jsnum" where
  "decayOfAge d =
     jsMax (Num 0)
       (jsMin (Num 1)
          (jsPowHalf (jsDiv (jsDiv (ofReal d) (Num (real_of_int DAY_IN_MS))) (Num 2))))"

definition decayValue :: "real \<Rightarrow> real" where
  "decayValue d =
     (if MAX_VALUE < d then 0
      else if d < - MAX_VALUE then 1
      else max 0 (min 1 ((1 / 2) powr (d / real_of_int DAY_IN_MS / 2))))"

text \<open>A destructuring default: \<^verbatim>\<open>{ likesCount = 0, ... } = engagement\<close>.\<close>

definition orZero :: "jsnum option \<Rightarrow> jsnum" where
  "orZero v = (case v of None \<Rightarrow> Num 0 | Some x \<Rightarrow> x)"

text \<open>
  \<^verbatim>\<open>calculatePopularityScore(engagement, createdAt)\<close>; \<open>now\<close> is \<^verbatim>\<open>Date.now()\<close>.
\<close>

definition calculatePopularityScore :: "int \<Rightarrow> engagement \<Rightarrow> timestamp \<Rightarrow> js_error + jsnum" where
  "calculatePopularityScore now eng created =
     (let likes = orZero (e_likesCount eng);
          comments = orZero (e_commentsCount eng);
          shares = orZero (e_sharesCount eng);
          views = orZero (e_viewsCount eng);
          engagementScore =
            jsAdd (jsAdd (jsMul likes (Num 1)) (jsMul comments (Num 2))) (jsMul shares (Num 3));
          engagementRate = (if jsGt views (Num 0) then jsDiv engagementScore views else Num 0)
      in case (if created = NoDate then Inr (Num 0)
               else (case getTime created of
                       Inl e \<Rightarrow> Inl e
                     | Inr t \<Rightarrow>
                         Inr (jsDiv (jsSub (Num (real_of_int now)) t) (Num (1000 * 60 * 60))))) of
           Inl e \<Rightarrow> Inl e
         | Inr ageInHours \<Rightarrow>
             let timeAdjustment =
                   jsMax (Num (1 / 10)) (jsExp (jsDiv (jsNeg ageInHours) (Num 24)));
                 rawScore = jsDiv (jsLog (jsAdd engagementScore (Num 1))) (jsLog (Num 1000));
                 adjustedScore = jsMul rawScore timeAdjustment;
                 finalScore =
                   jsAdd (jsMul adjustedScore (Num (7 / 10))) (jsMul engagementRate (Num (3 / 10)))
             in Inr (jsMin (Num 1) finalScore))"

text \<open>The engagement object that \<^verbatim>\<open>calculateRankingScore\<close> builds from the post.\<close>

definition engagementOf :: "'a post_scheme \<Rightarrow> engagement" where
  "engagementOf p =
     \<lparr>e_likesCount = likesCount p, e_commentsCount = commentsCount p,
      e_sharesCount = sharesCount p, e_viewsCount = viewsCount p\<rparr>"

text \<open>
  The body of the \<^verbatim>\<open>try\<close> block of \<^verbatim>\<open>calculateRankingScore\<close>: the three scores in the
  order of the source, the first exception ending the block, then the weighted sum.
\<close>

definition rankingScoreBody ::
  "rankingWeights \<Rightarrow> int \<Rightarrow> 'a post_scheme \<Rightarrow> likedTag list \<Rightarrow> js_error + jsnum" where
  "rankingScoreBody w now p userLikedTags =
     (let personalizationScore = Num (calculatePersonalizationScore (tags p) userLikedTags)
      in case calculateRecencyScore now (createdAt p) of
           Inl e \<Rightarrow> Inl e
         | Inr recencyScore \<Rightarrow>
             (case calculatePopularityScore now (engagementOf p) (createdAt p) of
                Inl e \<Rightarrow> Inl e
              | Inr popularityScore \<Rightarrow>
                  Inr (jsAdd
                         (jsAdd (jsMul personalizationScore (Num (PERSONALIZATION_WEIGHT w)))
                                (jsMul recencyScore (Num (RECENCY_WEIGHT w))))
                         (jsMul popularityScore (Num (POPULARITY_WEIGHT w))))))"

text \<open>
  \<^verbatim>\<open>calculateRankingScore\<close>: the block above inside \<^verbatim>\<open>try\<close>, and the handler, which logs
  the error and returns 0.
\<close>

definition calculateRankingScore ::
  "rankingWeights \<Rightarrow> int \<Rightarrow> 'a post_scheme \<Rightarrow> likedTag list \<Rightarrow> js_error + jsnum" where
  "calculateRankingScore w now p userLikedTags =
     (case rankingScoreBody w now p userLikedTags of
        Inr finalScore \<Rightarrow> Inr finalScore
      | Inl error \<Rightarrow> Inr (Num 0))"

text \<open>
  \<^verbatim>\<open>Array.prototype.map\<close> with a callback that may raise: the first exception ends the
  whole map and is the outcome.
\<close>

fun mapRaising :: "('a \<Rightarrow> js_error + 'b) \<Rightarrow> 'a list \<Rightarrow> js_error + 'b list" where
  "mapRaising f [] = Inr []"
| "mapRaising f (x # xs) =
     (case f x of
        Inl e \<Rightarrow> Inl e
      | Inr y \<Rightarrow> (case mapRaising f xs of Inl e \<Rightarrow> Inl e | Inr ys \<Rightarrow> Inr (y # ys)))"

text \<open>\<^verbatim>\<open>calculateBatchRankingScores(posts, userLikedTags)\<close>.\<close>

definition calculateBatchRankingScores ::
  "rankingWeights \<Rightarrow> int \<Rightarrow> post list \<Rightarrow> likedTag list \<Rightarrow> js_error + scoredPost list" where
  "calculateBatchRankingScores w now posts userLikedTags =
     mapRaising
       (\<lambda>p. case calculateRankingScore w now p userLikedTags of
               Inl e \<Rightarrow> Inl e
             | Inr score \<Rightarrow>
                 Inr (post.extend p
                        \<lparr>rankingScore = score,
                         personalizedFor =
                           (if length userLikedTags > 0 then ''user'' else ''general'')\<rparr>))
       posts"

text \<open>
  The score of the design document, in its words: the map from tag to weight built from
  the profile, the total of the weights, the sum of weight / total over the post tags that
  are in the map, divided by the square root of the number of post tags, times one plus
  the matched fraction, capped at 1.
\<close>

definition tagWeightMap :: "likedTag list \<Rightarrow> (string \<rightharpoonup> real)" where
  "tagWeightMap profile = map_of (rev (map (\<lambda>lt. (toLowerCase (tag lt), tagCount lt)) profile))"

definition weightOrZero :: "real option \<Rightarrow> real" where
  "weightOrZero v = (case v of None \<Rightarrow> 0 | Some x \<Rightarrow> x)"

definition specPersonalizationScore :: "string list \<Rightarrow> likedTag list \<Rightarrow> real" where
  "specPersonalizationScore postTags profile =
     (let totalWeight = sum_list (map tagCount profile);
          matched = filter (\<lambda>t. tagWeightMap profile (toLowerCase t) \<noteq> None) postTags;
          matchScore =
            sum_list (map (\<lambda>t. weightOrZero (tagWeightMap profile (toLowerCase t)) / totalWeight)
                          matched);
          normalized = matchScore / sqrt (real (length postTags));
          matchPercentage = real (length matched) / real (length postTags)
      in min (normalized * (1 + matchPercentage)) 1)"



text \<open>The profile and the posts of the concrete scenarios below.\<close>

definition catsDogs :: "likedTag list" where
  "catsDogs =
     [\<lparr>tag = ''cats'', tagCount = 10, lastLikedAt = 0\<rparr>,
      \<lparr>tag = ''dogs'', tagCount = 2, lastLikedAt = 0\<rparr>]"

definition freshPost :: post where
  "freshPost =
     \<lparr>post_id = ''p1'', tags = Some [''cats'', ''birds''], createdAt = Date 1000,
      likesCount = None, commentsCount = None, sharesCount = None, viewsCount = None\<rparr>"




text \<open>A post without engagement, dated 2000 days after the clock reading 0.\<close>

definition farFuturePost :: post where
  "farFuturePost =
     \<lparr>post_id = ''p5'', tags = Some [''cats''], createdAt = Date (2000 * DAY_IN_MS),
      likesCount = Some (Num 0), commentsCount = Some (Num 0), sharesCount = Some (Num 0),
      viewsCount = Some (Num 0)\<rparr>"

section \<open>The diversity pass (services/rankingService.js)\<close>

text \<open>
  \<^verbatim>\<open>calculateTagOverlap(tags1, tags2)\<close>; \<open>None\<close> is a missing array. A \<^verbatim>\<open>Set\<close> of strings is
  a list without duplicates here; only the sizes of the intersection and of the union are
  read, so the order in which \<open>remdups\<close> keeps the elements does not matter.
\<close>

definition calculateTagOverlap :: "string list option \<Rightarrow> string list option \<Rightarrow> real" where
  "calculateTagOverlap tags1 tags2 =
     (case tags1 of
        None \<Rightarrow> 0
      | Some t1 \<Rightarrow>
          (case tags2 of
             None \<Rightarrow> 0
           | Some t2 \<Rightarrow>
               if length t1 = 0 \<or> length t2 = 0 then 0
               else
                 let set1 = remdups (map toLowerCase t1);
                     set2 = remdups (map toLowerCase t2);
                     intersection = filter (\<lambda>x. x \<in> set set2) set1;
                     union = remdups (set1 @ set2)
                 in real (length intersection) / real (length union)))"

text \<open>\<^verbatim>\<open>post.tags || []\<close>.\<close>

definition tagsOrEmpty :: "'a post_scheme \<Rightarrow> string list" where
  "tagsOrEmpty p = (case tags p of None \<Rightarrow> [] | Some ts \<Rightarrow> ts)"

text \<open>
  \<^verbatim>\<open>Array.prototype.indexOf\<close>: the first position of the element, or -1. The language
  compares objects by reference; two posts are the same value here exactly when they are
  the same object, or copies that no field tells apart.
\<close>

fun indexOf :: "'a \<Rightarrow> 'a list \<Rightarrow> int" where
  "indexOf x [] = - 1"
| "indexOf x (y # ys) =
     (if x = y then 0 else (let i = indexOf x ys in if i < 0 then - 1 else i + 1))"

text \<open>
  The array left by \<^verbatim>\<open>splice(start, 1)\<close>: a negative start counts from the end, a start
  beyond the end removes nothing.
\<close>

definition splice1 :: "int \<Rightarrow> 'a list \<Rightarrow> 'a list" where
  "splice1 start xs =
     (let len = int (length xs);
          s = (if start < 0 then max (len + start) 0 else min start len)
      in take (nat s) xs @ drop (Suc (nat s)) xs)"

text \<open>
  The \<^verbatim>\<open>while\<close> loop of \<^verbatim>\<open>applyDiversity\<close>. \<open>random\<close> is the sequence of values that
  \<^verbatim>\<open>Math.random()\<close> returns and \<open>k\<close> the number of draws made so far; a draw is made only
  when \<^verbatim>\<open>different\<close> is not empty, as \<^verbatim>\<open>&&\<close> evaluates its right side only then. Reading
  \<^verbatim>\<open>.tags\<close> of the last element of an empty \<^verbatim>\<open>diversified\<close> would raise.
\<close>

function diversifyLoop ::
  "(nat \<Rightarrow> real) \<Rightarrow> nat \<Rightarrow> real \<Rightarrow> 'a post_scheme list \<Rightarrow> 'a post_scheme list
     \<Rightarrow> js_error + 'a post_scheme list" where
  "diversifyLoop random k diversityFactor diversified remaining =
     (if length remaining > 0 then
        (if length diversified = 0 then Inl TypeError
         else
           let lastPost = last diversified;
               different =
                 filter (\<lambda>p. calculateTagOverlap (Some (tagsOrEmpty lastPost))
                                                 (Some (tagsOrEmpty p)) < 1 / 2)
                        remaining
           in if length different > 0 then
                (if random k < diversityFactor then
                   diversifyLoop random (Suc k) diversityFactor
                     (diversified @ [hd different])
                     (splice1 (indexOf (hd different) remaining) remaining)
                 else
                   diversifyLoop random (Suc k) diversityFactor
                     (diversified @ [hd remaining]) (tl remaining))
              else
                diversifyLoop random k diversityFactor
                  (diversified @ [hd remaining]) (tl remaining))
      else Inr diversified)"
  by pat_completeness auto
termination
proof (relation "measure (\<lambda>(random, k, diversityFactor, diversified, remaining). length remaining)")
  have idx: "- 1 \<le> indexOf x xs \<and> indexOf x xs < int (length xs)" for x :: 'b and xs
    by (induction xs) (auto simp: Let_def)
  have shrink: "length (splice1 (indexOf x xs) xs) < length xs" if "0 < length xs"
    for x :: 'b and xs
    using idx[of x xs] that by (auto simp: splice1_def Let_def max_def min_def)
  show "wf (measure (\<lambda>(random, k, diversityFactor, diversified, remaining). length remaining))"
    by simp
  fix random :: "nat \<Rightarrow> real" and k :: nat and diversityFactor :: real
    and diversified remaining :: "'a post_scheme list" and lastPost different
  assume "0 < length remaining"
  then show "((random, Suc k, diversityFactor, diversified @ [hd different],
               splice1 (indexOf (hd different) remaining) remaining),
              (random, k, diversityFactor, diversified, remaining))
             \<in> measure (\<lambda>(random, k, diversityFactor, diversified, remaining). length remaining)"
    using shrink[of remaining "hd different"] by simp
  then show "((random, Suc k, diversityFactor, diversified @ [hd remaining], tl remaining),
              (random, k, diversityFactor, diversified, remaining))
             \<in> measure (\<lambda>(random, k, diversityFactor, diversified, remaining). length remaining)"
    using \<open>0 < length remaining\<close> by simp
  show "((random, k, diversityFactor, diversified @ [hd remaining], tl remaining),
              (random, k, diversityFactor, diversified, remaining))
             \<in> measure (\<lambda>(random, k, diversityFactor, diversified, remaining). length remaining)"
    using \<open>0 < length remaining\<close> by simp
qed

text \<open>
  \<^verbatim>\<open>applyDiversity(posts, diversityFactor)\<close>: the early return, the copy of the input,
  the top post moved over, then the loop. The input array itself is not written to.
\<close>

definition applyDiversity ::
  "(nat \<Rightarrow> real) \<Rightarrow> 'a post_scheme list \<Rightarrow> real \<Rightarrow> js_error + 'a post_scheme list" where
  "applyDiversity random posts diversityFactor =
     (if length posts \<le> 1 \<or> diversityFactor \<le> 0 then Inr posts
      else
        let remaining = posts
        in if length remaining > 0
           then diversifyLoop random 0 diversityFactor [hd remaining] (tl remaining)
           else diversifyLoop random 0 diversityFactor [] remaining)"

text \<open>Three posts for the concrete run below: two about cats, one about cars.\<close>

definition catPostA :: post where
  "catPostA =
     \<lparr>post_id = ''a'', tags = Some [''cats'', ''pets''], createdAt = Date 3000,
      likesCount = Some (Num 3), commentsCount = None, sharesCount = None, viewsCount = None\<rparr>"

definition catPostB :: post where
  "catPostB =
     \<lparr>post_id = ''b'', tags = Some [''Cats'', ''pets''], createdAt = Date 2000,
      likesCount = Some (Num 2), commentsCount = None, sharesCount = None, viewsCount = None\<rparr>"

definition carPost :: post where
  "carPost =
     \<lparr>post_id = ''c'', tags = Some [''cars''], createdAt = Date 1000,
      likesCount = Some (Num 1), commentsCount = None, sharesCount = None, viewsCount = None\<rparr>"

section \<open>The cache and the like path (cacheService.js, personalizationService.js, feedController.js)\<close>

text \<open>
  The cache service and the store behind it: whether the client is connected and ready,
  and for each key the value with the time, in milliseconds, at which it expires (\<open>None\<close>:
  never). The values, of type \<open>'v\<close>, are the objects the callers store (a page of a feed, the
  preferred tags of a user); they go through JSON on the way in and out, and the model keeps
  the value. A failing store call is caught in the service and gives the same result as an
  unavailable cache.
\<close>

record 'v cacheService =
  isAvailable :: bool
  entries :: "string \<rightharpoonup> 'v \<times> int option"

definition cache_get :: "int \<Rightarrow> string \<Rightarrow> 'v cacheService \<Rightarrow> 'v option" where
  "cache_get now key c =
     (if \<not> isAvailable c then None
      else (case entries c key of
              None \<Rightarrow> None
            | Some (v, expiry) \<Rightarrow>
                (case expiry of
                   None \<Rightarrow> Some v
                 | Some e \<Rightarrow> if e \<le> now then None else Some v)))"

text \<open>\<open>ttl\<close> is in seconds; \<^verbatim>\<open>if (ttl)\<close> takes a missing ttl and 0 as no expiry.\<close>

definition cache_set ::
  "int \<Rightarrow> string \<Rightarrow> 'v \<Rightarrow> nat option \<Rightarrow> 'v cacheService \<Rightarrow> 'v cacheService" where
  "cache_set now key v ttl c =
     (if \<not> isAvailable c then c
      else c\<lparr>entries := (entries c)
                 (key \<mapsto> (v, (case ttl of
                                None \<Rightarrow> None
                              | Some secs \<Rightarrow>
                                  if secs = 0 then None else Some (now + int secs * 1000))))\<rparr>)"

definition cache_delete :: "string \<Rightarrow> 'v cacheService \<Rightarrow> 'v cacheService" where
  "cache_delete key c =
     (if \<not> isAvailable c then c else c\<lparr>entries := (entries c)(key := None)\<rparr>)"

text \<open>The cache keys of utils/constants.js; a user identifier is its string.\<close>

definition USER_FEED :: "string \<Rightarrow> string" where
  "USER_FEED userId = ''feed:user:'' @ userId"

definition USER_LIKED_TAGS :: "string \<Rightarrow> string" where
  "USER_LIKED_TAGS userId = ''tags:user:'' @ userId"

definition FEED_CACHE_TTL :: nat where
  "FEED_CACHE_TTL = 300"

definition MAX_PAGE_SIZE :: nat where
  "MAX_PAGE_SIZE = 100"

text \<open>A number in a template literal: its decimal digits.\<close>

fun showNat :: "nat \<Rightarrow> string" where
  "showNat n =
     (if n < 10 then [''0123456789'' ! n]
      else showNat (n div 10) @ [''0123456789'' ! (n mod 10)])"

text \<open>
  The parsed query of a feed request: \<^verbatim>\<open>page\<close>, \<^verbatim>\<open>limit\<close>, the \<^verbatim>\<open>tags\<close> filter and
  \<^verbatim>\<open>refresh\<close>.
\<close>

record feedRequest =
  page :: nat
  limit :: nat
  tagFilter :: "string option"
  refresh :: bool

text \<open>
  The key under which \<^verbatim>\<open>getPersonalizedFeed\<close> reads and writes a page:
  \<^verbatim>\<open>USER_FEED(userId) + `:${pageNum}:${limitNum}:${tags || 'all'}`\<close>. An empty filter is
  falsy.
\<close>

definition feedCacheKey :: "string \<Rightarrow> feedRequest \<Rightarrow> string" where
  "feedCacheKey userId req =
     (let pageNum = max 1 (page req);
          limitNum = min MAX_PAGE_SIZE (max 1 (limit req))
      in USER_FEED userId @ '':'' @ showNat pageNum @ '':'' @ showNat limitNum @ '':''
         @ (case tagFilter req of
              None \<Rightarrow> ''all''
            | Some ts \<Rightarrow> if ts = [] then ''all'' else ts))"

text \<open>
  The state the like path and the feed read share: the posts and the profiles of the
  database, by identifier, and the cache.
\<close>

record 'v appState =
  postsDb :: "string \<rightharpoonup> post"
  usersDb :: "string \<rightharpoonup> likedTag list"
  cache :: "'v cacheService"

text \<open>
  \<^verbatim>\<open>updateUserPreferencesOnLike(userId, postId)\<close>: one \<^verbatim>\<open>addLikedTag\<close> per tag of the post,
  then the deletion of one cache key. \<open>now\<close> is the clock of the calls.
\<close>

definition updateUserPreferencesOnLike ::
  "int \<Rightarrow> string \<Rightarrow> string \<Rightarrow> 'v appState \<Rightarrow> 'v appState" where
  "updateUserPreferencesOnLike now userId postId s =
     (case postsDb s postId of
        None \<Rightarrow> s
      | Some p \<Rightarrow>
          (case tags p of
             None \<Rightarrow> s
           | Some ts \<Rightarrow>
               if length ts = 0 then s
               else
                 (case usersDb s userId of
                    None \<Rightarrow> s
                  | Some likedTags \<Rightarrow>
                      s\<lparr>usersDb := (usersDb s)(userId \<mapsto> fold (\<lambda>t. addLikedTag t now) ts likedTags),
                        cache := cache_delete (USER_LIKED_TAGS userId) (cache s)\<rparr>)))"

text \<open>The response of the feed endpoint: the page and the \<^verbatim>\<open>cached\<close> flag.\<close>

record 'v feedResponse =
  feedPage :: 'v
  cached :: bool

text \<open>
  \<^verbatim>\<open>getPersonalizedFeed\<close>, as far as the cache decides the response. A cached page is an
  object, which is truthy, so \<^verbatim>\<open>if (cachedFeed)\<close> asks whether the key was found.
  \<open>computeFeed\<close> is the rest of the handler: the page ranked from the database and the
  current profile, which is what a recomputation returns.
\<close>

definition getPersonalizedFeed ::
  "('v appState \<Rightarrow> string \<Rightarrow> feedRequest \<Rightarrow> 'v) \<Rightarrow> int \<Rightarrow> string \<Rightarrow> feedRequest \<Rightarrow> 'v appState
     \<Rightarrow> 'v feedResponse \<times> 'v appState" where
  "getPersonalizedFeed computeFeed now userId req s =
     (let cacheKey = feedCacheKey userId req;
          hit = (if \<not> refresh req then cache_get now cacheKey (cache s) else None)
      in case hit of
           Some cachedFeed \<Rightarrow> (\<lparr>feedPage = cachedFeed, cached = True\<rparr>, s)
         | None \<Rightarrow>
             let result = computeFeed s userId req
             in (\<lparr>feedPage = result, cached = False\<rparr>,
                 s\<lparr>cache := cache_set now cacheKey result (Some FEED_CACHE_TTL) (cache s)\<rparr>))"

text \<open>
  A state with a page cached for user \<open>u1\<close> before a like, under the key of the first page
  and under the bare per-user key (a page is the list of the identifiers of its posts), and
  a recomputation that lists the posts matching the current profile of the user.
\<close>

definition staleState :: "string list appState" where
  "staleState =
     \<lparr>postsDb = [''p1'' \<mapsto> freshPost],
      usersDb = [''u1'' \<mapsto> []],
      cache = \<lparr>isAvailable = True,
               entries = [''feed:user:u1:1:20:all'' \<mapsto> ([''p9'', ''p8''], Some 300000),
                          ''feed:user:u1'' \<mapsto> ([''p9'', ''p8''], Some 300000),
                          ''tags:user:u1'' \<mapsto> ([], Some 300000)]\<rparr>\<rparr>"

definition firstPage :: feedRequest where
  "firstPage = \<lparr>page = 1, limit = 20, tagFilter = None, refresh = False\<rparr>"

definition matchingPosts :: "string list appState \<Rightarrow> string \<Rightarrow> feedRequest \<Rightarrow> string list" where
  "matchingPosts s userId req =
     (case usersDb s userId of
        None \<Rightarrow> []
      | Some likedTags \<Rightarrow> if likedTags = [] then [''p9'', ''p8''] else [''p1'', ''p9'', ''p8''])"

section \<open>Properties of the tag profile\<close>

lemma length_bumpOrPush_le: "length (bumpOrPush t now lts) \<le> Suc (length lts)"
  by (simp add: bumpOrPush_def split: option.split)

lemma length_addLikedTag_le: "length (addLikedTag t now lts) \<le> 100"
  by (simp add: addLikedTag_def Let_def)

text \<open>
  C3. After any sequence of \<^verbatim>\<open>addLikedTag\<close> calls that starts from the empty profile, the
  profile has at most 100 entries. Every prefix of a sequence of calls is a sequence of
  calls, so the bound holds after each call of a run, not only after the last one.
\<close>

theorem addLikedTag_bounded: "length (addLikedTags calls []) \<le> 100"
proof (cases calls rule: rev_cases)
  case Nil
  then show ?thesis by (simp add: addLikedTags_def)
next
  case (snoc cs c)
  then show ?thesis
    by (cases c) (simp add: addLikedTags_def length_addLikedTag_le)
qed

lemma findIndex_None_iff: "findIndex P xs = None \<longleftrightarrow> (\<forall>x\<in>set xs. \<not> P x)"
  by (induction xs) (auto split: option.splits)

lemma findIndex_Some:
  "findIndex P xs = Some i \<Longrightarrow> i < length xs \<and> P (xs ! i) \<and> find P xs = Some (xs ! i)"
  by (induction xs arbitrary: i) (auto split: option.splits if_splits)

lemma find_update_first:
  "findIndex P xs = Some i \<Longrightarrow> P y \<Longrightarrow> find P (xs[i := y]) = Some y"
  by (induction xs arbitrary: i) (auto split: option.splits if_splits)

lemma storedWeight_nonneg:
  "\<forall>lt\<in>set lts. 0 \<le> tagCount lt \<Longrightarrow> 0 \<le> storedWeight t lts"
  by (auto simp: storedWeight_def find_Some_iff split: option.splits)

lemma bumpOrPush_nonneg:
  assumes "\<forall>lt\<in>set lts. 0 \<le> tagCount lt"
  shows "\<forall>lt\<in>set (bumpOrPush t now lts). 0 \<le> tagCount lt"
proof (cases "findIndex (\<lambda>lt. tag lt = toLowerCase t) lts")
  case None
  then show ?thesis using assms by (simp add: bumpOrPush_def)
next
  case (Some i)
  then have "i < length lts" using findIndex_Some[OF Some] by simp
  then have "0 \<le> tagCount (lts ! i)" using assms by simp
  then show ?thesis using assms Some
    by (auto simp: bumpOrPush_def dest!: set_update_subset_insert[THEN subsetD])
qed

lemma set_addLikedTag_subset:
  "set (addLikedTag t now lts) \<subseteq> set (bumpOrPush t now lts)"
  by (auto simp: addLikedTag_def Let_def sortByCountDesc_def dest: in_set_takeD)

lemma addLikedTag_nonneg:
  assumes "\<forall>lt\<in>set lts. 0 \<le> tagCount lt"
  shows "\<forall>lt\<in>set (addLikedTag t now lts). 0 \<le> tagCount lt"
  using bumpOrPush_nonneg[OF assms] set_addLikedTag_subset by blast

lemma addLikedTag_step_mono:
  assumes len: "length lts \<le> 100" and nn: "\<forall>lt\<in>set lts. 0 \<le> tagCount lt"
  shows "storedWeight t lts \<le> storedWeight t (addLikedTag t now lts)"
proof (cases "findIndex (\<lambda>lt. tag lt = toLowerCase t) lts")
  case None
  then have "find (\<lambda>lt. tag lt = toLowerCase t) lts = None"
    by (simp add: findIndex_None_iff find_None_iff)
  then have "storedWeight t lts = 0" by (simp add: storedWeight_def)
  then show ?thesis using storedWeight_nonneg[OF addLikedTag_nonneg[OF nn]] by simp
next
  case (Some i)
  let ?y = "(lts ! i)\<lparr>tagCount := tagCount (lts ! i) + 1, lastLikedAt := now\<rparr>"
  from Some have i: "tag (lts ! i) = toLowerCase t" "find (\<lambda>lt. tag lt = toLowerCase t) lts = Some (lts ! i)"
    using findIndex_Some[OF Some] by simp_all
  have upd: "bumpOrPush t now lts = lts[i := ?y]" using Some by (simp add: bumpOrPush_def)
  then have res: "addLikedTag t now lts = lts[i := ?y]" using len by (simp add: addLikedTag_def)
  have "find (\<lambda>lt. tag lt = toLowerCase t) (lts[i := ?y]) = Some ?y"
    using Some i by (intro find_update_first) simp_all
  then show ?thesis using i res by (simp add: storedWeight_def)
qed

lemma repeat_invariant:
  assumes "length lts \<le> 100" and "\<forall>lt\<in>set lts. 0 \<le> tagCount lt"
  shows "length (addLikedTags calls lts) \<le> 100 \<and> (\<forall>lt\<in>set (addLikedTags calls lts). 0 \<le> tagCount lt)"
  using assms
proof (induction calls arbitrary: lts)
  case Nil
  then show ?case by (simp add: addLikedTags_def)
next
  case (Cons c cs)
  obtain t now where c: "c = (t, now)" by (cases c)
  have "length (addLikedTag t now lts) \<le> 100" by (rule length_addLikedTag_le)
  moreover have "\<forall>lt\<in>set (addLikedTag t now lts). 0 \<le> tagCount lt"
    using Cons.prems(2) by (rule addLikedTag_nonneg)
  ultimately show ?case using Cons.IH[of "addLikedTag t now lts"] c
    by (simp add: addLikedTags_def)
qed

lemma addLikedTags_snoc:
  "addLikedTags (calls @ [(t, now)]) lts = addLikedTag t now (addLikedTags calls lts)"
  by (simp add: addLikedTags_def)

text \<open>
  C4. Repeated \<^verbatim>\<open>addLikedTag\<close> calls with the same tag never decrease the weight stored
  for that tag, and the weight is never negative. The profile the calls start from is any
  profile of the data model: at most 100 entries (the bound of C3, which every call
  re-establishes) and no negative count. The calls are \<open>map (Pair t) nows\<close>, the tag \<open>t\<close> at
  the times \<open>nows\<close>; one more call at time \<open>now\<close> is compared with the state before it.
\<close>

theorem addLikedTag_weight_monotone:
  assumes "length lts \<le> 100" and "\<forall>lt\<in>set lts. 0 \<le> tagCount lt"
  shows "storedWeight t (addLikedTags (map (Pair t) nows) lts)
           \<le> storedWeight t (addLikedTags (map (Pair t) (nows @ [now])) lts)
         \<and> 0 \<le> storedWeight t (addLikedTags (map (Pair t) (nows @ [now])) lts)"
proof -
  let ?p = "addLikedTags (map (Pair t) nows) lts"
  have inv: "length ?p \<le> 100" "\<forall>lt\<in>set ?p. 0 \<le> tagCount lt"
    using repeat_invariant[OF assms] by simp_all
  have eq: "addLikedTags (map (Pair t) (nows @ [now])) lts = addLikedTag t now ?p"
    by (simp add: addLikedTags_snoc)
  show ?thesis
    unfolding eq
    using addLikedTag_step_mono[OF inv] storedWeight_nonneg[OF addLikedTag_nonneg[OF inv(2)]]
    by simp
qed

theorem addLikedTag_weight_monotone_witness:
  "length [\<lparr>tag = ''cats'', tagCount = 3, lastLikedAt = 0\<rparr>] \<le> 100
   \<and> list_all (\<lambda>lt. 0 \<le> tagCount lt) [\<lparr>tag = ''cats'', tagCount = 3, lastLikedAt = 0\<rparr>]
   \<and> storedWeight ''Cats'' (addLikedTags [(''Cats'', 5)] [\<lparr>tag = ''cats'', tagCount = 3, lastLikedAt = 0\<rparr>]) = 4
   \<and> storedWeight ''Cats'' (addLikedTags [(''Cats'', 5), (''Cats'', 9)] [\<lparr>tag = ''cats'', tagCount = 3, lastLikedAt = 0\<rparr>]) = 5"
proof -
  let ?p = "[\<lparr>tag = ''cats'', tagCount = 3, lastLikedAt = 0\<rparr>]"
  have h1: "length ?p \<le> 100" by simp
  have h2: "\<forall>lt\<in>set ?p. 0 \<le> tagCount lt" by simp
  have low: "toLowerCase ''Cats'' = ''cats''"
    by (simp add: toLowerCase_def toLowerCase_char_def)
  have a: "storedWeight ''Cats'' (addLikedTags [(''Cats'', 5)] ?p) = 4"
    by (simp add: storedWeight_def addLikedTags_def addLikedTag_def bumpOrPush_def low)
  have b: "storedWeight ''Cats'' (addLikedTags [(''Cats'', 5), (''Cats'', 9)] ?p) = 5"
    by (simp add: storedWeight_def addLikedTags_def addLikedTag_def bumpOrPush_def low)
  show ?thesis
    using addLikedTag_weight_monotone[OF h1 h2, of "''Cats''" "[5]" 9] h1 h2 a b by simp
qed

lemma fullProfile_length: "length fullProfile = 100"
  by (simp add: fullProfile_def)

lemma zebra_lower: "toLowerCase ''zebra'' = ''zebra''"
  by (simp add: toLowerCase_def toLowerCase_char_def)

lemma fullProfile_no_zebra: "findIndex (\<lambda>lt. tag lt = ''zebra'') fullProfile = None"
  by (auto simp: findIndex_None_iff fullProfile_def)

lemma fullProfile_push:
  "bumpOrPush ''zebra'' 1000 fullProfile
     = fullProfile @ [\<lparr>tag = ''zebra'', tagCount = 1, lastLikedAt = 1000\<rparr>]"
  by (simp add: bumpOrPush_def zebra_lower fullProfile_no_zebra)

lemma fullProfile_counts: "\<forall>lt\<in>set fullProfile. tagCount lt = 1"
  by (auto simp: fullProfile_def)

lemma sorted_map_const: "\<forall>x\<in>set xs. f x = (k::real) \<Longrightarrow> sorted (map f xs)"
  by (induction xs) auto

lemma fullProfile_sorted:
  "sortByCountDesc (fullProfile @ [\<lparr>tag = ''zebra'', tagCount = 1, lastLikedAt = 1000\<rparr>])
     = fullProfile @ [\<lparr>tag = ''zebra'', tagCount = 1, lastLikedAt = 1000\<rparr>]"
proof -
  have "\<forall>lt\<in>set (fullProfile @ [\<lparr>tag = ''zebra'', tagCount = 1, lastLikedAt = 1000\<rparr>]).
          - tagCount lt = - 1"
    using fullProfile_counts by simp
  then have "sorted (map (\<lambda>lt. - tagCount lt)
                 (fullProfile @ [\<lparr>tag = ''zebra'', tagCount = 1, lastLikedAt = 1000\<rparr>]))"
    by (rule sorted_map_const)
  then show ?thesis unfolding sortByCountDesc_def by (rule sort_key_id_if_sorted)
qed

lemma fullProfile_evicts_newest: "addLikedTag ''zebra'' 1000 fullProfile = fullProfile"
  by (simp add: addLikedTag_def fullProfile_push fullProfile_sorted fullProfile_length)

text \<open>
  C5 as stated fails. On the full profile above, a like of the new tag \<open>zebra\<close> at time 1000
  pushes a 101st entry of count 1. All 101 entries tie; the entry just pushed, the most
  recently liked of all, is the one evicted, and the entry last liked at time 0 stays.
\<close>

theorem addLikedTag_tie_counterexample:
  "length (bumpOrPush ''zebra'' 1000 fullProfile) > 100
   \<and> \<lparr>tag = ''a'', tagCount = 1, lastLikedAt = 0\<rparr> \<in> set (addLikedTag ''zebra'' 1000 fullProfile)
   \<and> \<lparr>tag = ''zebra'', tagCount = 1, lastLikedAt = 1000\<rparr> \<notin> set (addLikedTag ''zebra'' 1000 fullProfile)"
proof -
  have a: "\<lparr>tag = ''a'', tagCount = 1, lastLikedAt = 0\<rparr> = fullProfile ! 0"
    by (simp add: fullProfile_def del: upt_Suc)
  have "\<lparr>tag = ''a'', tagCount = 1, lastLikedAt = 0\<rparr> \<in> set fullProfile"
    unfolding a by (rule nth_mem) (simp add: fullProfile_length)
  moreover have "\<lparr>tag = ''zebra'', tagCount = 1, lastLikedAt = 1000\<rparr> \<notin> set fullProfile"
    by (auto simp: fullProfile_def)
  ultimately show ?thesis
    by (simp add: fullProfile_evicts_newest fullProfile_push fullProfile_length)
qed

text \<open>
  C5, as the code has it. Whenever the update of \<^verbatim>\<open>addLikedTag\<close> leaves more than 100
  entries, the result has exactly 100 entries, and there is a list of evicted entries such
  that the kept entries followed by the evicted ones are the updated array sorted by count,
  descending: the same entries; in descending order of count, so that every kept entry has
  a count at least that of every evicted one; and, for every count \<open>k\<close>, the entries of
  count \<open>k\<close> in the order they had in the updated array. The comparator looks at the count
  alone and the sort is stable, so among entries of equal count those latest in the array
  are the ones evicted, whatever their \<^verbatim>\<open>lastLikedAt\<close>.
\<close>

theorem addLikedTag_eviction:
  assumes "length (bumpOrPush t now lts) > 100"
  shows "\<exists>evicted.
           length (addLikedTag t now lts) = 100
         \<and> mset (addLikedTag t now lts @ evicted) = mset (bumpOrPush t now lts)
         \<and> sorted_wrt (\<lambda>a b. tagCount a \<ge> tagCount b) (addLikedTag t now lts @ evicted)
         \<and> (\<forall>a\<in>set (addLikedTag t now lts). \<forall>b\<in>set evicted. tagCount b \<le> tagCount a)
         \<and> (\<forall>k. filter (\<lambda>lt. tagCount lt = k) (addLikedTag t now lts @ evicted)
                  = filter (\<lambda>lt. tagCount lt = k) (bumpOrPush t now lts))"
proof -
  let ?u = "bumpOrPush t now lts"
  let ?s = "sortByCountDesc ?u"
  let ?kept = "take 100 ?s"
  let ?evicted = "drop 100 ?s"
  have res: "addLikedTag t now lts = ?kept"
    using assms by (simp add: addLikedTag_def)
  have whole: "?kept @ ?evicted = ?s" by simp
  have len: "length ?kept = 100"
    using assms by (simp add: sortByCountDesc_def)
  have ms: "mset (?kept @ ?evicted) = mset ?u"
    unfolding whole by (simp add: sortByCountDesc_def)
  have "sorted (map (\<lambda>lt. - tagCount lt) ?s)"
    by (simp add: sortByCountDesc_def)
  then have "sorted_wrt (\<lambda>a b. tagCount a \<ge> tagCount b) ?s"
    by (simp add: sorted_wrt_map)
  then have srt: "sorted_wrt (\<lambda>a b. tagCount a \<ge> tagCount b) (?kept @ ?evicted)"
    unfolding whole .
  then have above: "\<forall>a\<in>set ?kept. \<forall>b\<in>set ?evicted. tagCount b \<le> tagCount a"
    by (simp only: sorted_wrt_append) blast
  have stab: "filter (\<lambda>lt. tagCount lt = k) (?kept @ ?evicted)
                = filter (\<lambda>lt. tagCount lt = k) ?u" for k
  proof -
    have "filter (\<lambda>lt. - tagCount lt = - k) ?s = filter (\<lambda>lt. - tagCount lt = - k) ?u"
      unfolding sortByCountDesc_def by (rule sort_key_stable)
    then have "filter (\<lambda>lt. tagCount lt = k) ?s = filter (\<lambda>lt. tagCount lt = k) ?u"
      by simp
    then show ?thesis unfolding whole .
  qed
  show ?thesis unfolding res using len ms srt above stab by blast
qed

theorem addLikedTag_eviction_witness:
  "length (bumpOrPush ''zebra'' 1000 fullProfile) > 100
   \<and> (\<exists>evicted. length (addLikedTag ''zebra'' 1000 fullProfile) = 100
         \<and> mset (addLikedTag ''zebra'' 1000 fullProfile @ evicted)
             = mset (bumpOrPush ''zebra'' 1000 fullProfile)
         \<and> sorted_wrt (\<lambda>a b. tagCount a \<ge> tagCount b)
             (addLikedTag ''zebra'' 1000 fullProfile @ evicted))"
proof -
  have h: "length (bumpOrPush ''zebra'' 1000 fullProfile) > 100"
    by (simp add: fullProfile_push fullProfile_length)
  show ?thesis using addLikedTag_eviction[OF h] h by blast
qed

section \<open>Properties of the scores\<close>

lemma tagWeightMap_Cons:
  "m0(toLowerCase (tag lt) \<mapsto> tagCount lt) ++ tagWeightMap lts = m0 ++ tagWeightMap (lt # lts)"
  by (simp add: tagWeightMap_def fun_eq_iff map_add_def split: option.splits)

lemma buildPreferences_fold:
  "fold (\<lambda>lt (m, tot). (m(toLowerCase (tag lt) \<mapsto> tagCount lt), tot + tagCount lt)) lts (m0, t0)
     = (m0 ++ tagWeightMap lts, t0 + sum_list (map tagCount lts))"
proof (induction lts arbitrary: m0 t0)
  case Nil
  then show ?case by (simp add: tagWeightMap_def)
next
  case (Cons lt lts)
  let ?f = "\<lambda>lt (m, tot). (m(toLowerCase (tag lt) \<mapsto> tagCount lt), tot + tagCount lt)"
  have "fold ?f (lt # lts) (m0, t0) = fold ?f lts (m0(toLowerCase (tag lt) \<mapsto> tagCount lt), t0 + tagCount lt)"
    by (simp only: fold_simps comp_apply case_prod_conv)
  also have "\<dots> = (m0(toLowerCase (tag lt) \<mapsto> tagCount lt) ++ tagWeightMap lts,
                   t0 + tagCount lt + sum_list (map tagCount lts))"
    by (rule Cons.IH)
  also have "\<dots> = (m0 ++ tagWeightMap (lt # lts), t0 + sum_list (map tagCount (lt # lts)))"
    by (simp only: tagWeightMap_Cons list.map sum_list.Cons add.assoc)
  finally show ?case .
qed

lemma buildPreferences_eq:
  "buildPreferences lts = (tagWeightMap lts, sum_list (map tagCount lts))"
  by (simp add: buildPreferences_def buildPreferences_fold)

lemma matchTags_fold:
  "fold (\<lambda>t (matchScore, matchedTags).
             (case m (toLowerCase t) of
                Some tagWeight \<Rightarrow> (matchScore + tagWeight / tot, Suc matchedTags)
              | None \<Rightarrow> (matchScore, matchedTags))) pts (s0, n0)
   = (s0 + sum_list (map (\<lambda>t. weightOrZero (m (toLowerCase t)) / tot) (filter (\<lambda>t. m (toLowerCase t) \<noteq> None) pts)),
      n0 + length (filter (\<lambda>t. m (toLowerCase t) \<noteq> None) pts))"
  by (induction pts arbitrary: s0 n0) (auto simp: weightOrZero_def split: option.splits)

lemma matchTags_eq:
  "matchTags m tot pts
     = (sum_list (map (\<lambda>t. weightOrZero (m (toLowerCase t)) / tot) (filter (\<lambda>t. m (toLowerCase t) \<noteq> None) pts)),
        length (filter (\<lambda>t. m (toLowerCase t) \<noteq> None) pts))"
  by (simp add: matchTags_def matchTags_fold)

text \<open>
  C1. For a non-empty list of post tags and a non-empty profile of positive total weight,
  \<^verbatim>\<open>calculatePersonalizationScore\<close> is the score of the design document: the sum, over the
  post tags found in the profile, of weight / total weight, divided by the square root of
  the number of post tags, times one plus the fraction of post tags found, capped at 1. On
  the profile \<open>{cats: 10, dogs: 2}\<close> and the post tags \<open>cats\<close>, \<open>birds\<close> this is
  \<open>min ((10/12) / sqrt 2 * 1.5) 1\<close>, within 0.001 of 0.884 (the instance below).
\<close>

theorem personalization_formula:
  assumes "postTags \<noteq> []" and "profile \<noteq> []" and "0 < sum_list (map tagCount profile)"
  shows "calculatePersonalizationScore (Some postTags) profile = specPersonalizationScore postTags profile"
  using assms
  by (simp add: calculatePersonalizationScore_def specPersonalizationScore_def
        buildPreferences_eq matchTags_eq Let_def)

lemma sqrt2_bounds: "1414 / 1000 < sqrt 2" "sqrt 2 < 1415 / 1000"
proof -
  show "1414 / 1000 < sqrt 2" by (rule real_less_rsqrt) (simp add: power2_eq_square)
  show "sqrt 2 < 1415 / 1000" by (rule real_less_lsqrt) (simp_all add: power2_eq_square)
qed

lemma lowerTags:
  "toLowerCase ''cats'' = ''cats''" "toLowerCase ''dogs'' = ''dogs''"
  "toLowerCase ''birds'' = ''birds''"
  by (simp_all add: toLowerCase_def toLowerCase_char_def)

lemma catsDogs_value:
  "specPersonalizationScore [''cats'', ''birds''] catsDogs = min (10 / 12 / sqrt 2 * (1 + 1 / 2)) 1"
  by (simp add: specPersonalizationScore_def catsDogs_def tagWeightMap_def lowerTags
        weightOrZero_def)

theorem personalization_formula_witness:
  "[''cats'', ''birds''] \<noteq> [] \<and> catsDogs \<noteq> [] \<and> 0 < sum_list (map tagCount catsDogs)
   \<and> calculatePersonalizationScore (Some [''cats'', ''birds'']) catsDogs
       = min (10 / 12 / sqrt 2 * (1 + 1 / 2)) 1
   \<and> \<bar>calculatePersonalizationScore (Some [''cats'', ''birds'']) catsDogs - 884 / 1000\<bar> < 1 / 1000"
proof -
  have h1: "[''cats'', ''birds''] \<noteq> []" by simp
  have h2: "catsDogs \<noteq> []" by (simp add: catsDogs_def)
  have h3: "0 < sum_list (map tagCount catsDogs)" by (simp add: catsDogs_def)
  have v: "calculatePersonalizationScore (Some [''cats'', ''birds'']) catsDogs
             = min (10 / 12 / sqrt 2 * (1 + 1 / 2)) 1"
    using personalization_formula[OF h1 h2 h3] catsDogs_value by simp
  have e: "10 / 12 / sqrt 2 * (1 + 1 / 2) = (5 / 8) * sqrt 2"
    by (simp add: field_simps)
  have b: "\<bar>min ((5 / 8) * sqrt 2) 1 - 884 / 1000\<bar> < 1 / 1000"
    using sqrt2_bounds by (simp add: min_def abs_if)
  have c: "\<bar>calculatePersonalizationScore (Some [''cats'', ''birds'']) catsDogs - 884 / 1000\<bar>
             < 1 / 1000"
    unfolding v e by (rule b)
  show ?thesis using h1 h2 h3 v c by blast
qed

subsection \<open>The arithmetic of the language\<close>

lemma MAX_VALUE_ge: "2 ^ 1023 \<le> MAX_VALUE"
proof -
  have "(1 :: real) \<le> 2 - 1 / 2 ^ 52" by simp
  then have "1 * (2 :: real) ^ 1023 \<le> (2 - 1 / 2 ^ 52) * 2 ^ 1023"
    by (rule mult_right_mono) simp
  then show ?thesis by (simp add: MAX_VALUE_def)
qed

lemma MAX_VALUE_less: "MAX_VALUE < 2 ^ 1024"
proof -
  have "(2 - 1 / 2 ^ 52) * (2 :: real) ^ 1023 < 2 * 2 ^ 1023"
    by (rule mult_strict_right_mono) simp_all
  then show ?thesis by (simp add: MAX_VALUE_def)
qed

lemma MAX_VALUE_ge_small: "2 ^ 40 \<le> MAX_VALUE"
proof -
  have "(2 :: real) ^ 40 \<le> 2 ^ 1023" by (rule power_increasing) simp_all
  then show ?thesis using MAX_VALUE_ge by linarith
qed

lemma MAX_VALUE_ge_one: "1 \<le> MAX_VALUE"
  using MAX_VALUE_ge_small by simp

lemma ofReal_Num: "- MAX_VALUE \<le> x \<Longrightarrow> x \<le> MAX_VALUE \<Longrightarrow> ofReal x = Num x"
  by (simp add: ofReal_def)

lemma ofReal_small: "\<bar>x\<bar> \<le> 2 ^ 40 \<Longrightarrow> ofReal x = Num x"
  using MAX_VALUE_ge_small by (intro ofReal_Num) linarith+

lemma jsAdd_NaN_right: "jsAdd a NaN = NaN"
  by (cases a) simp_all

lemma jsMul_NaN_right: "jsMul a NaN = NaN"
  by (cases a) simp_all

lemma jsDiv_NaN_right: "jsDiv a NaN = NaN"
  by (cases a) simp_all



lemma exp_2000_overflows: "MAX_VALUE < exp (2000 :: real)"
proof -
  have "(2 :: real) \<le> exp 1" using exp_ge_add_one_self[of "1 :: real"] by simp
  then have "(2 :: real) ^ 2000 \<le> exp 1 ^ 2000" by (rule power_mono) simp
  moreover have "exp (1 :: real) ^ 2000 = exp 2000"
    using exp_of_nat_mult[of 2000 "1 :: real"] by simp
  moreover have "(2 :: real) ^ 1024 \<le> 2 ^ 2000" by (rule power_increasing) simp_all
  ultimately show ?thesis using MAX_VALUE_less by linarith
qed

subsection \<open>Which candidates raise, and which give NaN\<close>

lemma recency_returns:
  "created \<noteq> NotADate \<Longrightarrow> \<exists>r. calculateRecencyScore now created = Inr r"
  by (cases created) (simp_all add: calculateRecencyScore_def Let_def)










lemma calculateRankingScore_returns:
  "calculateRankingScore w now p profile
     = Inr (case rankingScoreBody w now p profile of Inl e \<Rightarrow> Num 0 | Inr s \<Rightarrow> s)"
  by (simp add: calculateRankingScore_def split: sum.splits)

lemma mapRaising_total: "mapRaising (\<lambda>x. Inr (g x)) xs = Inr (map g xs)"
  by (induction xs) simp_all

lemma batch_eq_map:
  "calculateBatchRankingScores w now posts profile
     = Inr (map (\<lambda>p. post.extend p
                        \<lparr>rankingScore =
                           (case rankingScoreBody w now p profile of
                              Inl e \<Rightarrow> Num 0
                            | Inr s \<Rightarrow> s),
                         personalizedFor =
                           (if length profile > 0 then ''user'' else ''general'')\<rparr>)
                posts)"
proof -
  let ?g = "\<lambda>p. post.extend p
                 \<lparr>rankingScore =
                    (case rankingScoreBody w now p profile of Inl e \<Rightarrow> Num 0 | Inr s \<Rightarrow> s),
                  personalizedFor = (if length profile > 0 then ''user'' else ''general'')\<rparr>"
  have "calculateBatchRankingScores w now posts profile = mapRaising (\<lambda>p. Inr (?g p)) posts"
    by (simp only: calculateBatchRankingScores_def calculateRankingScore_returns sum.case)
  then show ?thesis by (simp only: mapRaising_total)
qed

subsection \<open>The score of a post dated far ahead\<close>

lemma ofReal_exp_2000: "ofReal (exp 2000) = Infinity"
  using exp_2000_overflows by (simp add: ofReal_def)

lemma farFuture_popularity:
  "calculatePopularityScore 0 (engagementOf farFuturePost) (createdAt farFuturePost) = Inr NaN"
  by (simp add: calculatePopularityScore_def farFuturePost_def engagementOf_def orZero_def
        Let_def jsSub_def DAY_IN_MS_def ofReal_small ofReal_exp_2000 jsMax_def jsMin_def
        jsGt_def)

text \<open>
  C2 fails in the code. A post without any engagement that is dated 2000 days after the
  clock meets every condition of the claim: its counts are 0, the tag weights of the
  profile are positive, the weights are the default ones. Its time adjustment overflows to
  \<^verbatim>\<open>Infinity\<close>, its raw score is 0, and their product is \<^verbatim>\<open>NaN\<close>, which \<^verbatim>\<open>Math.min(1, ...)\<close>
  passes on: the popularity score is \<^verbatim>\<open>NaN\<close>, and so is the ranking score, returned without
  any exception. Neither is a value in [0, 1].
\<close>

theorem far_future_score_nan:
  "calculatePopularityScore 0 (engagementOf farFuturePost) (createdAt farFuturePost) = Inr NaN
   \<and> calculateRankingScore defaultWeights 0 farFuturePost catsDogs = Inr NaN
   \<and> calculateBatchRankingScores defaultWeights 0 [farFuturePost] catsDogs
       = Inr [post.extend farFuturePost \<lparr>rankingScore = NaN, personalizedFor = ''user''\<rparr>]"
proof -
  have nd: "createdAt farFuturePost \<noteq> NotADate" by (simp add: farFuturePost_def)
  obtain r where r: "calculateRecencyScore 0 (createdAt farFuturePost) = Inr r"
    using recency_returns[OF nd] by blast
  have body: "rankingScoreBody defaultWeights 0 farFuturePost catsDogs = Inr NaN"
    by (simp add: rankingScoreBody_def r farFuture_popularity jsAdd_NaN_right)
  then have score: "calculateRankingScore defaultWeights 0 farFuturePost catsDogs = Inr NaN"
    by (simp add: calculateRankingScore_def)
  have "0 < length catsDogs" by (simp add: catsDogs_def)
  then have batch: "calculateBatchRankingScores defaultWeights 0 [farFuturePost] catsDogs
       = Inr [post.extend farFuturePost \<lparr>rankingScore = NaN, personalizedFor = ''user''\<rparr>]"
    by (simp add: batch_eq_map body)
  show ?thesis using farFuture_popularity score batch by blast
qed

subsection \<open>The batch\<close>








subsection \<open>Recency\<close>

lemma recency_Date:
  "calculateRecencyScore now (Date t) = Inr (decayOfAge (real_of_int now - real_of_int t))"
  by (simp add: calculateRecencyScore_def decayOfAge_def jsSub_def Let_def)

lemma clamp_ofReal_pos:
  assumes "0 < v"
  shows "jsMax (Num 0) (jsMin (Num 1) (ofReal v)) = Num (max 0 (min 1 v))"
proof (cases "MAX_VALUE < v")
  case True
  then have "1 \<le> v" using MAX_VALUE_ge_one by linarith
  then show ?thesis using True by (simp add: ofReal_def jsMin_def jsMax_def)
next
  case False
  then have "ofReal v = Num v" using assms MAX_VALUE_ge_one by (intro ofReal_Num) linarith+
  then show ?thesis by (simp add: jsMin_def jsMax_def max_def min_def)
qed

lemma decayOfAge_value: "decayOfAge d = Num (decayValue d)"
proof -
  consider (hi) "MAX_VALUE < d" | (lo) "d < - MAX_VALUE"
    | (mid) "- MAX_VALUE \<le> d" "d \<le> MAX_VALUE"
    by linarith
  then show ?thesis
  proof cases
    case hi
    then show ?thesis
      by (simp add: decayOfAge_def decayValue_def ofReal_def DAY_IN_MS_def jsMin_def jsMax_def)
  next
    case lo
    moreover have "\<not> MAX_VALUE < d" using lo MAX_VALUE_ge_one by linarith
    ultimately show ?thesis
      by (simp add: decayOfAge_def decayValue_def ofReal_def DAY_IN_MS_def jsMin_def jsMax_def)
  next
    case mid
    define x where "x = d / real_of_int DAY_IN_MS"
    have day: "(1 :: real) \<le> real_of_int DAY_IN_MS" by (simp add: DAY_IN_MS_def)
    have a: "\<bar>x\<bar> \<le> \<bar>d\<bar>"
    proof -
      have "\<bar>d\<bar> / real_of_int DAY_IN_MS \<le> \<bar>d\<bar> / 1"
        by (rule divide_left_mono) (use day in simp_all)
      then show ?thesis using day by (simp add: x_def)
    qed
    have d1: "ofReal d = Num d" using mid by (rule ofReal_Num)
    have d2: "ofReal x = Num x" using a mid by (intro ofReal_Num) linarith+
    have d3: "ofReal (x / 2) = Num (x / 2)" using a mid by (intro ofReal_Num) linarith+
    have nz: "real_of_int DAY_IN_MS \<noteq> 0" using day by simp
    have "jsDiv (ofReal d) (Num (real_of_int DAY_IN_MS)) = Num x"
      using nz d2 by (simp add: d1 x_def)
    then have "jsDiv (jsDiv (ofReal d) (Num (real_of_int DAY_IN_MS))) (Num 2) = Num (x / 2)"
      by (simp add: d3)
    then have "decayOfAge d = jsMax (Num 0) (jsMin (Num 1) (ofReal ((1 / 2) powr (x / 2))))"
      by (simp add: decayOfAge_def)
    also have "\<dots> = Num (max 0 (min 1 ((1 / 2) powr (x / 2))))"
      by (rule clamp_ofReal_pos) simp
    finally show ?thesis using mid by (simp add: decayValue_def x_def)
  qed
qed

lemma decayValue_unit: "0 \<le> decayValue d \<and> decayValue d \<le> 1"
  by (simp add: decayValue_def)

lemma decay_mono:
  fixes a b :: real
  assumes "a \<le> b"
  shows "max 0 (min 1 ((1 / 2) powr (b / 2))) \<le> max 0 (min 1 ((1 / 2) powr (a / 2)))"
proof -
  have "(1 / 2 :: real) powr (b / 2) \<le> (1 / 2) powr (a / 2)"
    by (rule powr_mono') (use assms in simp_all)
  then show ?thesis by (simp add: max_def min_def)
qed

lemma decayValue_antitone:
  assumes "d1 \<le> d2"
  shows "decayValue d2 \<le> decayValue d1"
proof -
  consider (hi) "MAX_VALUE < d2" | (lo) "d1 < - MAX_VALUE"
    | (mid) "d2 \<le> MAX_VALUE" "- MAX_VALUE \<le> d1"
    by linarith
  then show ?thesis
  proof cases
    case hi
    then have "decayValue d2 = 0" by (simp add: decayValue_def)
    then show ?thesis using decayValue_unit[of d1] by simp
  next
    case lo
    moreover have "\<not> MAX_VALUE < d1" using lo MAX_VALUE_ge_one by linarith
    ultimately have "decayValue d1 = 1" by (simp add: decayValue_def)
    then show ?thesis using decayValue_unit[of d2] by simp
  next
    case mid
    have "d1 / real_of_int DAY_IN_MS \<le> d2 / real_of_int DAY_IN_MS"
      using assms by (simp add: DAY_IN_MS_def divide_right_mono)
    then have "max 0 (min 1 ((1 / 2) powr (d2 / real_of_int DAY_IN_MS / 2)))
                 \<le> max 0 (min 1 ((1 / 2) powr (d1 / real_of_int DAY_IN_MS / 2)))"
      by (rule decay_mono)
    moreover have "\<not> MAX_VALUE < d1" "\<not> d2 < - MAX_VALUE" using mid assms by linarith+
    ultimately show ?thesis using mid by (simp add: decayValue_def)
  qed
qed

text \<open>
  C9. Of two posts that differ in their creation time only, both scored at the same time
  \<open>now\<close>, the strictly newer one has a recency score at least as large as the older one's;
  both scores are finite numbers.
\<close>

theorem recency_monotone:
  assumes "createdAt older = Date t_old" and "newer = older\<lparr>createdAt := Date t_new\<rparr>"
    and "t_old < t_new"
  shows "\<exists>s_old s_new. calculateRecencyScore now (createdAt older) = Inr (Num s_old)
           \<and> calculateRecencyScore now (createdAt newer) = Inr (Num s_new) \<and> s_old \<le> s_new"
proof -
  let ?d_old = "real_of_int now - real_of_int t_old"
  let ?d_new = "real_of_int now - real_of_int t_new"
  have ages: "?d_new \<le> ?d_old" using assms(3) by simp
  have n: "createdAt newer = Date t_new" using assms(2) by simp
  have o: "calculateRecencyScore now (createdAt older) = Inr (Num (decayValue ?d_old))"
    by (simp only: assms(1) recency_Date decayOfAge_value)
  have m: "calculateRecencyScore now (createdAt newer) = Inr (Num (decayValue ?d_new))"
    by (simp only: n recency_Date decayOfAge_value)
  show ?thesis using o m decayValue_antitone[OF ages] by blast
qed

theorem recency_monotone_witness:
  "createdAt freshPost = Date 1000 \<and> (1000 :: int) < 2000
   \<and> (\<exists>s_old s_new. calculateRecencyScore 5000 (createdAt freshPost) = Inr (Num s_old)
         \<and> calculateRecencyScore 5000 (createdAt (freshPost\<lparr>createdAt := Date 2000\<rparr>))
             = Inr (Num s_new)
         \<and> s_old \<le> s_new)"
proof -
  have h1: "createdAt freshPost = Date 1000" by (simp add: freshPost_def)
  have h3: "(1000 :: int) < 2000" by simp
  show ?thesis using recency_monotone[OF h1 refl h3, of 5000] h1 h3 by blast
qed

text \<open>
  C10. A post created at or after the time of the evaluation has the recency score 1: the
  decay factor is at least 1, or \<^verbatim>\<open>Infinity\<close>, for an age that is not positive, and the clamp
  returns 1.
\<close>

theorem recency_future:
  assumes "now \<le> t"
  shows "calculateRecencyScore now (Date t) = Inr (Num 1)"
proof -
  let ?d = "real_of_int now - real_of_int t"
  have d: "?d \<le> 0" using assms by simp
  have "decayValue ?d = 1"
  proof (cases "?d < - MAX_VALUE")
    case True
    moreover have "\<not> MAX_VALUE < ?d" using d MAX_VALUE_ge_one by linarith
    ultimately show ?thesis by (simp add: decayValue_def)
  next
    case False
    have "?d / real_of_int DAY_IN_MS / 2 \<le> 0"
      using d by (simp add: DAY_IN_MS_def divide_le_0_iff)
    then have "(1 / 2 :: real) powr 0 \<le> (1 / 2) powr (?d / real_of_int DAY_IN_MS / 2)"
      by (intro powr_mono') simp_all
    moreover have "\<not> MAX_VALUE < ?d" using d MAX_VALUE_ge_one by linarith
    ultimately show ?thesis using False by (simp add: decayValue_def)
  qed
  then show ?thesis by (simp only: recency_Date decayOfAge_value)
qed

theorem recency_future_witness:
  "(1000 :: int) \<le> 1000 + 2 * DAY_IN_MS
   \<and> calculateRecencyScore 1000 (Date (1000 + 2 * DAY_IN_MS)) = Inr (Num 1)"
proof -
  have h: "(1000 :: int) \<le> 1000 + 2 * DAY_IN_MS" by (simp add: DAY_IN_MS_def)
  show ?thesis using recency_future[OF h] h by simp
qed

section \<open>Properties of the diversity pass\<close>

lemma indexOf_mem:
  "x \<in> set xs \<Longrightarrow> 0 \<le> indexOf x xs \<and> nat (indexOf x xs) < length xs \<and> xs ! nat (indexOf x xs) = x"
proof (induction xs)
  case Nil
  then show ?case by simp
next
  case (Cons y ys)
  show ?case
  proof (cases "x = y")
    case True
    then show ?thesis by simp
  next
    case False
    then have "x \<in> set ys" using Cons.prems by simp
    then have "0 \<le> indexOf x ys" "nat (indexOf x ys) < length ys" "ys ! nat (indexOf x ys) = x"
      using Cons.IH by simp_all
    then show ?thesis using False by (simp add: Let_def nat_add_distrib)
  qed
qed

lemma mset_splice1_indexOf:
  assumes "x \<in> set xs"
  shows "add_mset x (mset (splice1 (indexOf x xs) xs)) = mset xs"
proof -
  let ?i = "nat (indexOf x xs)"
  have i: "0 \<le> indexOf x xs" "?i < length xs" "xs ! ?i = x"
    using indexOf_mem[OF assms] by simp_all
  then have "splice1 (indexOf x xs) xs = take ?i xs @ drop (Suc ?i) xs"
    by (simp add: splice1_def Let_def min_def)
  moreover have "xs = take ?i xs @ x # drop (Suc ?i) xs"
    using id_take_nth_drop[OF i(2)] i(3) by simp
  ultimately show ?thesis by (metis add_mset_add_single mset.simps(2) mset_append union_mset_add_mset_right)
qed

lemma hd_filter_mem: "filter P xs \<noteq> [] \<Longrightarrow> hd (filter P xs) \<in> set xs"
  using hd_in_set[of "filter P xs"] by auto

lemma diversifyLoop_mset:
  "diversified \<noteq> [] \<Longrightarrow>
     \<exists>res. diversifyLoop random k diversityFactor diversified remaining = Inr res
           \<and> mset res = mset diversified + mset remaining"
proof (induction random k diversityFactor diversified remaining rule: diversifyLoop.induct)
  case (1 random k diversityFactor diversified remaining)
  show ?case
  proof (cases "remaining = []")
    case True
    then show ?thesis by simp
  next
    case False
    let ?different = "filter (\<lambda>p. calculateTagOverlap (Some (tagsOrEmpty (last diversified)))
                                                 (Some (tagsOrEmpty p)) < 1 / 2) remaining"
    have rem: "0 < length remaining" and div: "length diversified \<noteq> 0"
      using False "1.prems" by simp_all
    have split: "add_mset (hd remaining) (mset (tl remaining)) = mset remaining"
      using False by (cases remaining) simp_all
    show ?thesis
    proof (cases "0 < length ?different")
      case diff: True
      show ?thesis
      proof (cases "random k < diversityFactor")
        case True
        have "hd ?different \<in> set remaining" using diff by (intro hd_filter_mem) simp
        then have m: "add_mset (hd ?different)
                        (mset (splice1 (indexOf (hd ?different) remaining) remaining))
                      = mset remaining"
          by (rule mset_splice1_indexOf)
        obtain res where
          "diversifyLoop random (Suc k) diversityFactor (diversified @ [hd ?different])
             (splice1 (indexOf (hd ?different) remaining) remaining) = Inr res"
          "mset res = mset (diversified @ [hd ?different])
                      + mset (splice1 (indexOf (hd ?different) remaining) remaining)"
          using "1.IH"(1)[OF rem div refl refl diff True] by auto
        then show ?thesis
          using rem div diff True m
          by (subst diversifyLoop.simps) (simp add: Let_def)
      next
        case False
        obtain res where
          "diversifyLoop random (Suc k) diversityFactor (diversified @ [hd remaining])
             (tl remaining) = Inr res"
          "mset res = mset (diversified @ [hd remaining]) + mset (tl remaining)"
          using "1.IH"(2)[OF rem div refl refl diff False] by auto
        then show ?thesis
          using rem div diff False split
          by (subst diversifyLoop.simps) (simp add: Let_def)
      qed
    next
      case False
      obtain res where
        "diversifyLoop random k diversityFactor (diversified @ [hd remaining])
           (tl remaining) = Inr res"
        "mset res = mset (diversified @ [hd remaining]) + mset (tl remaining)"
        using "1.IH"(3)[OF rem div refl refl False] by auto
      then show ?thesis
        using rem div False split
        by (subst diversifyLoop.simps) (simp add: Let_def)
    qed
  qed
qed

text \<open>
  C7. For every list of posts, every diversity factor and every sequence of random draws,
  \<^verbatim>\<open>applyDiversity\<close> returns (it does not raise, and its loop ends), and what it returns is
  a permutation of the input: the same elements with the same multiplicities, hence the
  same length, and no duplicate that the input did not have.
\<close>

theorem applyDiversity_permutation:
  "\<exists>result. applyDiversity random posts diversityFactor = Inr result
      \<and> mset result = mset posts \<and> length result = length posts
      \<and> distinct result = distinct posts"
proof (cases "length posts \<le> 1 \<or> diversityFactor \<le> 0")
  case True
  then show ?thesis by (simp add: applyDiversity_def)
next
  case False
  then have ne: "posts \<noteq> []" by auto
  obtain res where r: "diversifyLoop random 0 diversityFactor [hd posts] (tl posts) = Inr res"
    and m: "mset res = mset [hd posts] + mset (tl posts)"
    using diversifyLoop_mset[of "[hd posts]" random 0 diversityFactor "tl posts"] by auto
  have "mset [hd posts] + mset (tl posts) = mset posts" using ne by (cases posts) simp_all
  then have m': "mset res = mset posts" using m by simp
  have "applyDiversity random posts diversityFactor = Inr res"
    using False ne r by (simp add: applyDiversity_def)
  then show ?thesis using m' mset_eq_length[OF m'] mset_eq_imp_distinct_iff[OF m'] by simp
qed

lemma lowerCats:
  "toLowerCase ''cats'' = ''cats''" "toLowerCase ''Cats'' = ''cats''"
  "toLowerCase ''pets'' = ''pets''" "toLowerCase ''cars'' = ''cars''"
  by (simp_all add: toLowerCase_def toLowerCase_char_def)

theorem applyDiversity_permutation_witness:
  "applyDiversity (\<lambda>k. 0) [catPostA, catPostB, carPost] (3 / 10)
     = Inr [catPostA, carPost, catPostB]
   \<and> mset [catPostA, carPost, catPostB] = mset [catPostA, catPostB, carPost]"
proof -
  have run: "applyDiversity (\<lambda>k. 0) [catPostA, catPostB, carPost] (3 / 10)
               = Inr [catPostA, carPost, catPostB]"
    by (simp add: applyDiversity_def calculateTagOverlap_def tagsOrEmpty_def splice1_def
          catPostA_def catPostB_def carPost_def lowerCats Let_def)
  show ?thesis
    using applyDiversity_permutation[of "\<lambda>k. 0" "[catPostA, catPostB, carPost]" "3 / 10"] run
    by auto
qed

section \<open>Properties of the like path and the feed cache\<close>

lemma firstPage_key: "feedCacheKey ''u1'' firstPage = ''feed:user:u1:1:20:all''"
  by (simp add: feedCacheKey_def firstPage_def USER_FEED_def MAX_PAGE_SIZE_def)

lemma tags_key_not_feed: "USER_LIKED_TAGS u \<noteq> USER_FEED u' @ rest"
  by (simp add: USER_LIKED_TAGS_def USER_FEED_def)

lemma entries_cache_delete:
  "k \<noteq> key \<Longrightarrow> entries (cache_delete key c) k = entries c k"
  by (simp add: cache_delete_def)

lemma isAvailable_cache_delete: "isAvailable (cache_delete key c) = isAvailable c"
  by (simp add: cache_delete_def)

lemma cache_after_like:
  "cache (updateUserPreferencesOnLike now userId postId s) = cache s
   \<or> cache (updateUserPreferencesOnLike now userId postId s)
        = cache_delete (USER_LIKED_TAGS userId) (cache s)"
  by (simp add: updateUserPreferencesOnLike_def split: option.splits)

lemma like_keeps_other_keys:
  assumes "k \<noteq> USER_LIKED_TAGS userId"
  shows "entries (cache (updateUserPreferencesOnLike now userId postId s)) k = entries (cache s) k"
  using cache_after_like[of now userId postId s] entries_cache_delete[OF assms] by auto

lemma like_keeps_available:
  "isAvailable (cache (updateUserPreferencesOnLike now userId postId s)) = isAvailable (cache s)"
  using cache_after_like[of now userId postId s] by (auto simp: isAvailable_cache_delete)

lemma feedCacheKey_not_tags: "feedCacheKey u req \<noteq> USER_LIKED_TAGS u'"
  by (simp add: feedCacheKey_def Let_def USER_LIKED_TAGS_def USER_FEED_def)

text \<open>
  C6, as the code has it. A like of a post that has tags, by a user that exists, with the
  cache available, updates the profile of the user and deletes the cached preferred tags of
  the user (the key \<open>tags:user:U\<close>); it leaves every feed entry as it was, the bare per-user
  key \<open>feed:user:U\<close> and the key of every page of every request alike, so a feed read at any
  later time finds in the cache exactly what it would have found without the like.
\<close>

theorem like_leaves_feed_cache:
  assumes "postsDb s postId = Some p" and "tags p = Some ts" and "ts \<noteq> []"
    and "usersDb s userId = Some likedTags" and "isAvailable (cache s)"
  shows "entries (cache (updateUserPreferencesOnLike now userId postId s)) (USER_LIKED_TAGS userId) = None
         \<and> usersDb (updateUserPreferencesOnLike now userId postId s) userId
             = Some (fold (\<lambda>t. addLikedTag t now) ts likedTags)
         \<and> entries (cache (updateUserPreferencesOnLike now userId postId s)) (USER_FEED userId)
             = entries (cache s) (USER_FEED userId)
         \<and> entries (cache (updateUserPreferencesOnLike now userId postId s)) (feedCacheKey userId req)
             = entries (cache s) (feedCacheKey userId req)
         \<and> cache_get later (feedCacheKey userId req) (cache (updateUserPreferencesOnLike now userId postId s))
             = cache_get later (feedCacheKey userId req) (cache s)
         \<and> (\<not> refresh req \<and> cache_get later (feedCacheKey userId req) (cache s) = Some pg
              \<longrightarrow> fst (getPersonalizedFeed computeFeed later userId req
                         (updateUserPreferencesOnLike now userId postId s))
                    = \<lparr>feedPage = pg, cached = True\<rparr>)"
proof -
  let ?s' = "updateUserPreferencesOnLike now userId postId s"
  have a: "entries (cache ?s') (USER_LIKED_TAGS userId) = None"
    using assms by (simp add: updateUserPreferencesOnLike_def cache_delete_def)
  have b: "usersDb ?s' userId = Some (fold (\<lambda>t. addLikedTag t now) ts likedTags)"
    using assms by (simp add: updateUserPreferencesOnLike_def)
  have "USER_FEED userId \<noteq> USER_LIKED_TAGS userId"
    using tags_key_not_feed[of userId userId "[]"] by simp
  then have c: "entries (cache ?s') (USER_FEED userId) = entries (cache s) (USER_FEED userId)"
    by (rule like_keeps_other_keys)
  have d: "entries (cache ?s') (feedCacheKey userId req) = entries (cache s) (feedCacheKey userId req)"
    using feedCacheKey_not_tags by (rule like_keeps_other_keys)
  have e: "cache_get later (feedCacheKey userId req) (cache ?s')
             = cache_get later (feedCacheKey userId req) (cache s)"
    by (simp add: cache_get_def d like_keeps_available)
  have f: "fst (getPersonalizedFeed computeFeed later userId req ?s') = \<lparr>feedPage = pg, cached = True\<rparr>"
    if "\<not> refresh req" and "cache_get later (feedCacheKey userId req) (cache s) = Some pg"
    using that e by (simp add: getPersonalizedFeed_def Let_def)
  show ?thesis using a b c d e f by blast
qed

lemma stale_after_like:
  "cache (updateUserPreferencesOnLike 1000 ''u1'' ''p1'' staleState)
     = cache_delete ''tags:user:u1'' (cache staleState)"
  by (simp add: updateUserPreferencesOnLike_def staleState_def freshPost_def USER_LIKED_TAGS_def)

lemma stale_profile_after_like:
  "usersDb (updateUserPreferencesOnLike 1000 ''u1'' ''p1'' staleState) ''u1''
     = Some [\<lparr>tag = ''cats'', tagCount = 1, lastLikedAt = 1000\<rparr>,
             \<lparr>tag = ''birds'', tagCount = 1, lastLikedAt = 1000\<rparr>]"
  by (simp add: updateUserPreferencesOnLike_def staleState_def freshPost_def addLikedTag_def
        bumpOrPush_def lowerTags)

text \<open>
  C6 as stated fails. User \<open>u1\<close> has the first page of the feed cached, likes post \<open>p1\<close>, and the
  profile changes; the entry under the bare per-user feed key is still there, the next read
  of the first page is answered from the cache with the page computed before the like, and
  a recomputation would have returned another page.
\<close>

theorem like_stale_feed_counterexample:
  "usersDb (updateUserPreferencesOnLike 1000 ''u1'' ''p1'' staleState) ''u1''
     = Some [\<lparr>tag = ''cats'', tagCount = 1, lastLikedAt = 1000\<rparr>,
             \<lparr>tag = ''birds'', tagCount = 1, lastLikedAt = 1000\<rparr>]
   \<and> entries (cache (updateUserPreferencesOnLike 1000 ''u1'' ''p1'' staleState)) (USER_FEED ''u1'')
       = Some ([''p9'', ''p8''], Some 300000)
   \<and> fst (getPersonalizedFeed matchingPosts 2000 ''u1'' firstPage
            (updateUserPreferencesOnLike 1000 ''u1'' ''p1'' staleState))
       = \<lparr>feedPage = [''p9'', ''p8''], cached = True\<rparr>
   \<and> matchingPosts (updateUserPreferencesOnLike 1000 ''u1'' ''p1'' staleState) ''u1'' firstPage
       = [''p1'', ''p9'', ''p8'']"
proof -
  have c: "entries (cache (updateUserPreferencesOnLike 1000 ''u1'' ''p1'' staleState)) (USER_FEED ''u1'')
             = Some ([''p9'', ''p8''], Some 300000)"
    unfolding stale_after_like by (simp add: cache_delete_def staleState_def USER_FEED_def)
  have g: "cache_get 2000 ''feed:user:u1:1:20:all''
             (cache (updateUserPreferencesOnLike 1000 ''u1'' ''p1'' staleState))
           = Some [''p9'', ''p8'']"
    unfolding stale_after_like by (simp add: cache_delete_def cache_get_def staleState_def)
  have f: "fst (getPersonalizedFeed matchingPosts 2000 ''u1'' firstPage
                 (updateUserPreferencesOnLike 1000 ''u1'' ''p1'' staleState))
             = \<lparr>feedPage = [''p9'', ''p8''], cached = True\<rparr>"
    by (simp add: getPersonalizedFeed_def firstPage_key Let_def g) (simp add: firstPage_def)
  have m: "matchingPosts (updateUserPreferencesOnLike 1000 ''u1'' ''p1'' staleState) ''u1'' firstPage
             = [''p1'', ''p9'', ''p8'']"
    unfolding matchingPosts_def stale_profile_after_like by simp
  show ?thesis using stale_profile_after_like c f m by blast
qed

theorem like_leaves_feed_cache_witness:
  "postsDb staleState ''p1'' = Some freshPost \<and> tags freshPost = Some [''cats'', ''birds'']
   \<and> usersDb staleState ''u1'' = Some [] \<and> isAvailable (cache staleState)
   \<and> entries (cache (updateUserPreferencesOnLike 1000 ''u1'' ''p1'' staleState)) (USER_LIKED_TAGS ''u1'') = None
   \<and> cache_get 2000 (feedCacheKey ''u1'' firstPage)
        (cache (updateUserPreferencesOnLike 1000 ''u1'' ''p1'' staleState))
       = Some [''p9'', ''p8'']
   \<and> fst (getPersonalizedFeed matchingPosts 2000 ''u1'' firstPage
            (updateUserPreferencesOnLike 1000 ''u1'' ''p1'' staleState))
       = \<lparr>feedPage = [''p9'', ''p8''], cached = True\<rparr>"
proof -
  have h1: "postsDb staleState ''p1'' = Some freshPost" by (simp add: staleState_def)
  have h2: "tags freshPost = Some [''cats'', ''birds'']" by (simp add: freshPost_def)
  have h3: "[''cats'', ''birds''] \<noteq> []" by simp
  have h4: "usersDb staleState ''u1'' = Some []" by (simp add: staleState_def)
  have h5: "isAvailable (cache staleState)" by (simp add: staleState_def)
  have g: "cache_get 2000 (feedCacheKey ''u1'' firstPage) (cache staleState)
             = Some [''p9'', ''p8'']"
    by (simp add: firstPage_key cache_get_def staleState_def)
  have r: "\<not> refresh firstPage" by (simp add: firstPage_def)
  show ?thesis
    using like_leaves_feed_cache[OF h1 h2 h3 h4 h5, of 1000 firstPage 2000 "[''p9'', ''p8'']" matchingPosts]
      h1 h2 h4 h5 g r
    by simp
qed

end
